theory Spec2Isabelle
  imports Complex_Main
begin

section \<open>JavaScript strings and character classes\<close>

text \<open>
  A JavaScript string is a sequence of UTF-16 code units; a code unit is modelled by its
  number. The classes below are the ones the regular expressions of
  \<^verbatim>\<open>client/src/lib/ocr.ts\<close> use: \<^verbatim>\<open>[A-Z]\<close>, \<^verbatim>\<open>[a-z]\<close>, \<^verbatim>\<open>\d\<close>, \<^verbatim>\<open>\w\<close> and \<^verbatim>\<open>\s\<close>
  (white space and line terminators of ECMAScript, the set \<^verbatim>\<open>trim()\<close> strips too).
\<close>

type_synonym ch = nat
type_synonym jsstring = "ch list"

definition str :: "string \<Rightarrow> jsstring" where
  "str s = map of_char s"

definition isUpper :: "ch \<Rightarrow> bool" where
  "isUpper c = (65 \<le> c \<and> c \<le> 90)"

definition isLower :: "ch \<Rightarrow> bool" where
  "isLower c = (97 \<le> c \<and> c \<le> 122)"

definition isDigit :: "ch \<Rightarrow> bool" where
  "isDigit c = (48 \<le> c \<and> c \<le> 57)"

definition isAlpha :: "ch \<Rightarrow> bool" where
  "isAlpha c = (isUpper c \<or> isLower c)"

definition isAlnum :: "ch \<Rightarrow> bool" where
  "isAlnum c = (isAlpha c \<or> isDigit c)"

definition isUpperDigit :: "ch \<Rightarrow> bool" where
  "isUpperDigit c = (isUpper c \<or> isDigit c)"

definition isWordCh :: "ch \<Rightarrow> bool" where
  "isWordCh c = (isAlnum c \<or> c = 95)"

definition isSpaceCh :: "ch \<Rightarrow> bool" where
  "isSpaceCh c = ((9 \<le> c \<and> c \<le> 13) \<or> c = 32 \<or> c = 160 \<or> c = 5760
                  \<or> (8192 \<le> c \<and> c \<le> 8202) \<or> c = 8232 \<or> c = 8233 \<or> c = 8239
                  \<or> c = 8287 \<or> c = 12288 \<or> c = 65279)"

definition isHyphen :: "ch \<Rightarrow> bool" where
  "isHyphen c = (c = 45)"

definition isHyphenOrSpace :: "ch \<Rightarrow> bool" where
  "isHyphenOrSpace c = (isHyphen c \<or> isSpaceCh c)"

definition trim :: "jsstring \<Rightarrow> jsstring" where
  "trim s = rev (dropWhile isSpaceCh (rev (dropWhile isSpaceCh s)))"

text \<open>
  \<^verbatim>\<open>toUpperCase()\<close> is only ever applied to strings that a replace has already reduced
  to \<^verbatim>\<open>\w\<close>, \<^verbatim>\<open>\s\<close>, period and hyphen (or less); on those it maps \<^verbatim>\<open>a-z\<close> to
  \<^verbatim>\<open>A-Z\<close> and leaves every other code unit alone.
\<close>

definition toUpperCase :: "jsstring \<Rightarrow> jsstring" where
  "toUpperCase s = map (\<lambda>c. if isLower c then c - 32 else c) s"

text \<open>\<^verbatim>\<open>s.split('\n')\<close>: the pieces between the separators, \<^verbatim>\<open>['']\<close> for the empty string.\<close>

fun splitOn :: "ch \<Rightarrow> jsstring \<Rightarrow> jsstring list" where
  "splitOn d [] = [[]]"
| "splitOn d (c # cs) =
     (if c = d then [] # splitOn d cs
      else (case splitOn d cs of [] \<Rightarrow> [[c]] | w # ws \<Rightarrow> (c # w) # ws))"

text \<open>\<^verbatim>\<open>xs.join(' ')\<close>.\<close>

fun joinSp :: "jsstring list \<Rightarrow> jsstring" where
  "joinSp [] = []"
| "joinSp [x] = x"
| "joinSp (x # y # ys) = x @ 32 # joinSp (y # ys)"

text \<open>\<^verbatim>\<open>s.includes(t)\<close>.\<close>

fun startsWith :: "jsstring \<Rightarrow> jsstring \<Rightarrow> bool" where
  "startsWith s [] = True"
| "startsWith [] (t # ts) = False"
| "startsWith (c # cs) (t # ts) = (c = t \<and> startsWith cs ts)"

fun includesStr :: "jsstring \<Rightarrow> jsstring \<Rightarrow> bool" where
  "includesStr [] t = (t = [])"
| "includesStr (c # cs) t = (startsWith (c # cs) t \<or> includesStr cs t)"

text \<open>
  \<^verbatim>\<open>s.split(/\s+/).filter(w => w.length > 0)\<close>: the maximal runs of characters that are
  not white space. The first argument is the word being read.
\<close>

fun wordsFrom :: "jsstring \<Rightarrow> jsstring \<Rightarrow> jsstring list" where
  "wordsFrom w [] = (if w = [] then [] else [w])"
| "wordsFrom w (c # cs) =
     (if isSpaceCh c then (if w = [] then wordsFrom [] cs else w # wordsFrom [] cs)
      else wordsFrom (w @ [c]) cs)"

definition splitWords :: "jsstring \<Rightarrow> jsstring list" where
  "splitWords s = wordsFrom [] s"

text \<open>
  \<^verbatim>\<open>s.replace(/\s+/g, ' ')\<close>: every run of white space becomes one space. The flag says
  that the previous character belonged to a run.
\<close>

fun collapseSpaces :: "bool \<Rightarrow> jsstring \<Rightarrow> jsstring" where
  "collapseSpaces inRun [] = []"
| "collapseSpaces inRun (c # cs) =
     (if isSpaceCh c then (if inRun then collapseSpaces True cs else 32 # collapseSpaces True cs)
      else c # collapseSpaces False cs)"

text \<open>\<^verbatim>\<open>s.replace(/--+/g, '-')\<close>: every run of two or more hyphens becomes one hyphen.\<close>

fun collapseHyphens :: "jsstring \<Rightarrow> jsstring" where
  "collapseHyphens [] = []"
| "collapseHyphens [c] = [c]"
| "collapseHyphens (a # b # cs) =
     (if isHyphen a \<and> isHyphen b then collapseHyphens (b # cs) else a # collapseHyphens (b # cs))"

section \<open>Regular expressions\<close>

text \<open>
  The patterns of the source are sequences of character classes with greedy bounded
  repetition, the assertions \<^verbatim>\<open>\b\<close>, \<^verbatim>\<open>^\<close> and \<^verbatim>\<open>$\<close> (no \<^verbatim>\<open>m\<close> flag), and one
  optional group. A position in the subject is a zipper: the characters already passed,
  last one first, and the characters still ahead. The matcher returns the positions at
  which a pattern can end, in the order in which a backtracking engine tries them
  (longest repetition first, the optional group before its omission).
\<close>

type_synonym zipper = "jsstring \<times> jsstring"

datatype re =
    Rep "ch \<Rightarrow> bool" nat "nat option"
  | WordB
  | Bos
  | Eos
  | Opt "re list"

definition wordBefore :: "zipper \<Rightarrow> bool" where
  "wordBefore z = (case fst z of [] \<Rightarrow> False | c # _ \<Rightarrow> isWordCh c)"

definition wordAfter :: "zipper \<Rightarrow> bool" where
  "wordAfter z = (case snd z of [] \<Rightarrow> False | c # _ \<Rightarrow> isWordCh c)"

definition advance :: "nat \<Rightarrow> zipper \<Rightarrow> zipper" where
  "advance n z = (rev (take n (snd z)) @ fst z, drop n (snd z))"

definition repEnds :: "(ch \<Rightarrow> bool) \<Rightarrow> nat \<Rightarrow> nat option \<Rightarrow> zipper \<Rightarrow> zipper list" where
  "repEnds p lo hi z =
     (let k = length (takeWhile p (case hi of None \<Rightarrow> snd z | Some h \<Rightarrow> take h (snd z)))
      in map (\<lambda>n. advance n z) (rev [lo ..< Suc k]))"

fun matchItem :: "re \<Rightarrow> zipper \<Rightarrow> zipper list"
  and matchSeq :: "re list \<Rightarrow> zipper \<Rightarrow> zipper list" where
  "matchItem (Rep p lo hi) z = repEnds p lo hi z"
| "matchItem WordB z = (if wordBefore z \<noteq> wordAfter z then [z] else [])"
| "matchItem Bos z = (if fst z = [] then [z] else [])"
| "matchItem Eos z = (if snd z = [] then [z] else [])"
| "matchItem (Opt rs) z = matchSeq rs z @ [z]"
| "matchSeq [] z = [z]"
| "matchSeq (r # rs) z = concat (map (matchSeq rs) (matchItem r z))"

text \<open>The first way to match at a position, if there is one.\<close>

definition matchAt :: "re list \<Rightarrow> zipper \<Rightarrow> zipper option" where
  "matchAt rs z = (case matchSeq rs z of [] \<Rightarrow> None | z' # _ \<Rightarrow> Some z')"

text \<open>
  \<^verbatim>\<open>s.match(/.../g)\<close>: the matches from left to right, each search starting where the
  previous match ended (one character further after an empty match). The empty list
  stands for \<^verbatim>\<open>null\<close>.
\<close>

function matchAll :: "re list \<Rightarrow> zipper \<Rightarrow> jsstring list" where
  "matchAll rs z =
     (case matchAt rs z of
        None \<Rightarrow> (if snd z = [] then [] else matchAll rs (advance 1 z))
      | Some z' \<Rightarrow>
          take (length (snd z) - length (snd z')) (snd z) #
            (if length (snd z') < length (snd z) then matchAll rs z'
             else if snd z = [] then [] else matchAll rs (advance 1 z)))"
  by pat_completeness auto
termination
  by (relation "measure (\<lambda>(rs, z). length (snd z))") (auto simp: advance_def)

declare matchAll.simps [simp del]

definition matchG :: "re list \<Rightarrow> jsstring \<Rightarrow> jsstring list" where
  "matchG rs s = matchAll rs ([], s)"

text \<open>\<^verbatim>\<open>/.../.test(s)\<close> and a truthy \<^verbatim>\<open>s.match(/.../)\<close>: there is a match somewhere.\<close>

definition reTest :: "re list \<Rightarrow> jsstring \<Rightarrow> bool" where
  "reTest rs s = (matchG rs s \<noteq> [])"

section \<open>Numbers\<close>

text \<open>
  Scores are JavaScript numbers, that is IEEE 754 doubles. A finite double is modelled by
  the rational number it denotes, and every arithmetic operation returns the exact result
  rounded to the nearest double, ties to the even significand: \<open>rnd\<close>. The rounding
  below keeps 53 significant bits and has no exponent limits; the scorers only produce
  zero and values between \<^verbatim>\<open>2^-60\<close> and 4 (a string is shorter than \<^verbatim>\<open>2^53\<close>
  characters, so its length is a double as it is), far from overflow and from the
  subnormal range.

  \<open>bitLength n\<close> is the number of binary digits of \<open>n\<close>; \<open>ilog2 x\<close> is the exponent
  \<open>e\<close> such that \<open>x\<close> lies between \<^verbatim>\<open>2^e\<close> (included) and \<^verbatim>\<open>2^(e+1)\<close> (excluded),
  for a positive \<open>x\<close>; \<open>scale2 k x\<close> is \<open>x\<close> times \<^verbatim>\<open>2^k\<close>.
\<close>

fun bitLength :: "nat \<Rightarrow> nat" where
  "bitLength n = (if n = 0 then 0 else Suc (bitLength (n div 2)))"

declare bitLength.simps [simp del]

definition ilog2 :: "rat \<Rightarrow> int" where
  "ilog2 x = (if 1 \<le> x then int (bitLength (nat \<lfloor>x\<rfloor>)) - 1
              else - int (bitLength (nat (\<lceil>1 / x\<rceil> - 1))))"

definition roundHalfEven :: "rat \<Rightarrow> int" where
  "roundHalfEven y =
     (let f = \<lfloor>y\<rfloor>; r = y - of_int f
      in if r < 1/2 then f else if 1/2 < r then f + 1 else if even f then f else f + 1)"

definition scale2 :: "int \<Rightarrow> rat \<Rightarrow> rat" where
  "scale2 k x = (if 0 \<le> k then x * 2 ^ nat k else x / 2 ^ nat (- k))"

definition roundPos :: "rat \<Rightarrow> rat" where
  "roundPos x = (let e = ilog2 x in scale2 (e - 52) (of_int (roundHalfEven (scale2 (52 - e) x))))"

definition rnd :: "rat \<Rightarrow> rat" where
  "rnd x = (if x = 0 then 0 else if 0 < x then roundPos x else - roundPos (- x))"

text \<open>
  A decimal literal of the source denotes the double nearest to it; \<^verbatim>\<open>x + y\<close> and
  \<^verbatim>\<open>x * y\<close> on doubles round the exact sum and product.
\<close>

definition dbl :: "rat \<Rightarrow> rat" where
  "dbl q = rnd q"

definition fadd :: "rat \<Rightarrow> rat \<Rightarrow> rat" where
  "fadd x y = rnd (x + y)"

definition fmul :: "rat \<Rightarrow> rat \<Rightarrow> rat" where
  "fmul x y = rnd (x * y)"

text \<open>
  The quotient of two lengths. A quotient whose divisor is zero is \<open>None\<close>: every
  quotient of the source divides a count by a count that is at least as large, so a zero
  divisor means \<^verbatim>\<open>0 / 0\<close>, which is \<^verbatim>\<open>NaN\<close>; \<^verbatim>\<open>NaN\<close> is carried through sums and
  \<^verbatim>\<open>Math.min\<close>, and every comparison with it is false.
\<close>

definition jsDiv :: "nat \<Rightarrow> nat \<Rightarrow> rat option" where
  "jsDiv a b = (if b = 0 then None else Some (rnd (of_nat a / of_nat b)))"

section \<open>The scorers\<close>

definition startsUpper :: "jsstring \<Rightarrow> bool" where
  "startsUpper w = (case w of [] \<Rightarrow> False | c # _ \<Rightarrow> isUpper c)"

definition calculateNameScore :: "jsstring \<Rightarrow> rat option" where
  "calculateNameScore line =
     (if \<not> list_ex isAlpha line then Some 0
      else
        (case jsDiv (length (filter (\<lambda>c. isAlpha c \<or> isSpaceCh c) line)) (length line) of
           None \<Rightarrow> None
         | Some alphaSpaceRatio \<Rightarrow>
             (let score1 = fadd 0 (fmul alphaSpaceRatio (dbl (4/10)));
                  words = splitWords line;
                  score2 = (if 2 \<le> length words \<and> length words \<le> 4
                            then fadd score1 (dbl (3/10)) else score1);
                  capitalizedWords = filter startsUpper words
              in case jsDiv (length capitalizedWords) (length words) of
                   None \<Rightarrow> None
                 | Some capRatio \<Rightarrow>
                     (let score3 = fadd score2 (fmul capRatio (dbl (2/10)));
                          score4 = (if 5 \<le> length line \<and> length line \<le> 40
                                    then fadd score3 (dbl (1/10)) else score3)
                      in Some (min score4 1)))))"

definition calculateIdScore :: "jsstring \<Rightarrow> rat option" where
  "calculateIdScore line =
     (let hasNumbers = list_ex isDigit line;
          hasLetters = list_ex isAlpha line
      in if \<not> hasNumbers \<and> \<not> hasLetters then Some 0
         else
           (let score1 = (if hasNumbers then fadd 0 (dbl (4/10)) else 0);
                score2 = (if hasLetters \<and> hasNumbers then fadd score1 (dbl (2/10)) else score1);
                cleanLine = filter isAlnum line
            in case jsDiv (length cleanLine) (length line) of
                 None \<Rightarrow> None
               | Some cleanRatio \<Rightarrow>
                   (let score3 = fadd score2 (fmul cleanRatio (dbl (3/10)));
                        score4 = (if 6 \<le> length cleanLine \<and> length cleanLine \<le> 15
                                  then fadd score3 (dbl (1/10)) else score3)
                    in Some (min score4 1))))"

definition plateShapeLD :: "re list" where
  "plateShapeLD = [Bos, Rep isUpper 2 (Some 3), Rep isDigit 2 (Some 4), Eos]"

definition plateShapeDL :: "re list" where
  "plateShapeDL = [Bos, Rep isDigit 2 (Some 3), Rep isUpper 2 (Some 3), Eos]"

definition plateShapeL1 :: "re list" where
  "plateShapeL1 = [Bos, Rep isUpper 1 (Some 1), Rep isDigit 3 (Some 4), Eos]"

definition calculatePlateScore :: "jsstring \<Rightarrow> rat" where
  "calculatePlateScore text =
     (let cleanText = filter isUpperDigit text;
          hasNumbers = list_ex isDigit cleanText;
          hasLetters = list_ex isUpper cleanText
      in if \<not> hasNumbers \<and> \<not> hasLetters then 0
         else
           (let score1 = (if hasNumbers \<and> hasLetters then fadd 0 (dbl (5/10)) else 0);
                score2 = (if hasNumbers \<and> \<not> hasLetters \<and> 3 \<le> length cleanText
                          then fadd score1 (dbl (3/10)) else score1);
                score3 = (if 4 \<le> length cleanText \<and> length cleanText \<le> 8
                          then fadd score2 (dbl (3/10))
                          else if 3 \<le> length cleanText \<and> length cleanText \<le> 10
                          then fadd score2 (dbl (1/10)) else score2);
                score4 = (if reTest plateShapeLD cleanText then fadd score3 (dbl (2/10)) else score3);
                score5 = (if reTest plateShapeDL cleanText then fadd score4 (dbl (2/10)) else score4);
                score6 = (if reTest plateShapeL1 cleanText then fadd score5 (dbl (15/100))
                          else score5)
            in min score6 1))"

section \<open>ID card extraction\<close>

record ExtractedIDData =
  name :: "jsstring option"
  idNumber :: "jsstring option"
  address :: "jsstring option"
  city :: "jsstring option"

definition emptyIDData :: ExtractedIDData where
  "emptyIDData = \<lparr>name = None, idNumber = None, address = None, city = None\<rparr>"

text \<open>\<^verbatim>\<open>text.split('\n').map(line => line.trim()).filter(line => line.length > 0)\<close>\<close>

definition textLines :: "jsstring \<Rightarrow> jsstring list" where
  "textLines text = filter (\<lambda>line. 0 < length line) (map trim (splitOn 10 text))"

text \<open>\<^verbatim>\<open>line.trim().replace(/[^\w\s.-]/g, '')\<close>\<close>

definition cleanIdLine :: "jsstring \<Rightarrow> jsstring" where
  "cleanIdLine line = filter (\<lambda>c. isWordCh c \<or> isSpaceCh c \<or> c = 46 \<or> c = 45) (trim line)"

definition headerWords :: "jsstring list" where
  "headerWords = map str [''IDENTITY'', ''CARD'', ''GOVERNMENT'', ''REPUBLIC'', ''ISSUED'',
     ''EXPIRES'', ''DOB'', ''DATE'', ''SEX'', ''MALE'', ''FEMALE'', ''ADDRESS'', ''SIGNATURE'',
     ''VALID'']"

definition dateRe :: "re list" where
  "dateRe = [Bos, Rep isDigit 1 (Some 2), Rep (\<lambda>c. c = 47) 1 (Some 1), Rep isDigit 1 (Some 2),
             Rep (\<lambda>c. c = 47) 1 (Some 1), Rep isDigit 4 (Some 4), Eos]"

definition onlySpecialRe :: "re list" where
  "onlySpecialRe = [Bos, Rep (\<lambda>c. \<not> isAlnum c) 0 None, Eos]"

definition skipLine :: "jsstring \<Rightarrow> bool" where
  "skipLine cleanLine =
     (let upperLine = toUpperCase cleanLine
      in length cleanLine < 3 \<or> 50 < length cleanLine
         \<or> list_ex (includesStr upperLine) headerWords
         \<or> reTest dateRe upperLine
         \<or> reTest onlySpecialRe cleanLine)"

fun meaningfulLoop :: "jsstring list \<Rightarrow> jsstring list" where
  "meaningfulLoop [] = []"
| "meaningfulLoop (line # rest) =
     (let cleanLine = cleanIdLine line
      in if skipLine cleanLine then meaningfulLoop rest else cleanLine # meaningfulLoop rest)"

definition meaningfulLines :: "jsstring \<Rightarrow> jsstring list" where
  "meaningfulLines text = meaningfulLoop (textLines text)"

text \<open>
  The two selection loops carry \<^verbatim>\<open>(bestCandidate, bestScore)\<close>, which starts as
  \<^verbatim>\<open>('', 0)\<close>.
\<close>

fun nameLoop :: "jsstring list \<Rightarrow> jsstring \<times> rat \<Rightarrow> jsstring \<times> rat" where
  "nameLoop [] best = best"
| "nameLoop (line # rest) (bestNameCandidate, bestNameScore) =
     (case calculateNameScore line of
        None \<Rightarrow> nameLoop rest (bestNameCandidate, bestNameScore)
      | Some nameScore \<Rightarrow>
          if nameScore > bestNameScore \<and> nameScore > dbl (7/10) then nameLoop rest (line, nameScore)
          else nameLoop rest (bestNameCandidate, bestNameScore))"

fun idLoop :: "jsstring \<Rightarrow> jsstring list \<Rightarrow> jsstring \<times> rat \<Rightarrow> jsstring \<times> rat" where
  "idLoop bestNameCandidate [] best = best"
| "idLoop bestNameCandidate (line # rest) (bestIdCandidate, bestIdScore) =
     (if line = bestNameCandidate then idLoop bestNameCandidate rest (bestIdCandidate, bestIdScore)
      else
        (case calculateIdScore line of
           None \<Rightarrow> idLoop bestNameCandidate rest (bestIdCandidate, bestIdScore)
         | Some idScore \<Rightarrow>
             if idScore > bestIdScore \<and> idScore > dbl (6/10)
             then idLoop bestNameCandidate rest (line, idScore)
             else idLoop bestNameCandidate rest (bestIdCandidate, bestIdScore)))"

definition bestNameCandidate :: "jsstring list \<Rightarrow> jsstring" where
  "bestNameCandidate ls = fst (nameLoop ls ([], 0))"

definition bestIdCandidate :: "jsstring list \<Rightarrow> jsstring" where
  "bestIdCandidate ls = fst (idLoop (bestNameCandidate ls) ls ([], 0))"

text \<open>\<^verbatim>\<open>bestNameCandidate.replace(/\s+/g, ' ').trim()\<close>\<close>

definition reportName :: "jsstring \<Rightarrow> jsstring" where
  "reportName cand = trim (collapseSpaces False cand)"

text \<open>\<^verbatim>\<open>bestIdCandidate.replace(/\s+/g, '').replace(/[^A-Z0-9]/g, '')\<close>\<close>

definition reportId :: "jsstring \<Rightarrow> jsstring" where
  "reportId cand = filter isUpperDigit (filter (\<lambda>c. \<not> isSpaceCh c) cand)"

definition fallbackNameRe :: "re list" where
  "fallbackNameRe =
     [WordB, Rep isUpper 1 (Some 1), Rep isLower 1 None, Rep isSpaceCh 1 None,
      Rep isUpper 1 (Some 1), Rep isLower 1 None,
      Opt [Rep isSpaceCh 1 None, Rep isUpper 1 (Some 1), Rep isLower 1 None], WordB]"

definition fallbackIdRe :: "re list" where
  "fallbackIdRe = [WordB, Rep isUpperDigit 8 (Some 15), WordB]"

text \<open>A string option is falsy when it is undefined or the empty string.\<close>

definition unset :: "jsstring option \<Rightarrow> bool" where
  "unset v = (case v of None \<Rightarrow> True | Some s \<Rightarrow> s = [])"

definition scoredName :: "jsstring list \<Rightarrow> jsstring option" where
  "scoredName ls = (if bestNameCandidate ls \<noteq> [] then Some (reportName (bestNameCandidate ls))
                    else None)"

definition scoredId :: "jsstring list \<Rightarrow> jsstring option" where
  "scoredId ls = (if bestIdCandidate ls \<noteq> [] then Some (reportId (bestIdCandidate ls))
                  else None)"

definition fallbackName :: "jsstring \<Rightarrow> jsstring option \<Rightarrow> jsstring option" where
  "fallbackName allText cur =
     (if unset cur
      then (case matchG fallbackNameRe allText of [] \<Rightarrow> cur | m # _ \<Rightarrow> Some m)
      else cur)"

definition fallbackId :: "jsstring \<Rightarrow> jsstring option \<Rightarrow> jsstring option" where
  "fallbackId allText cur =
     (if unset cur
      then (case matchG fallbackIdRe allText of [] \<Rightarrow> cur | m # _ \<Rightarrow> Some m)
      else cur)"

text \<open>The body of the \<^verbatim>\<open>try\<close> block of \<^verbatim>\<open>extractIDCardText\<close>, after the recognition.\<close>

definition extractIDData :: "jsstring \<Rightarrow> ExtractedIDData" where
  "extractIDData text =
     (let ls = meaningfulLines text;
          extractedData = emptyIDData\<lparr>name := scoredName ls\<rparr>;
          extractedData = extractedData\<lparr>idNumber := scoredId ls\<rparr>
      in if unset (name extractedData) \<or> unset (idNumber extractedData)
         then
           (let allText = joinSp ls;
                extractedData = extractedData\<lparr>name := fallbackName allText (name extractedData)\<rparr>
            in extractedData\<lparr>idNumber := fallbackId allText (idNumber extractedData)\<rparr>)
         else extractedData)"

text \<open>
  The recognition engine is outside the repository: \<^verbatim>\<open>Tesseract.recognize\<close> either
  yields the recognised text or throws. The result of an \<^verbatim>\<open>async\<close> function is a
  promise that is rejected (\<open>Inl\<close>) or resolved (\<open>Inr\<close>).
\<close>

datatype error = OcrError

definition tryCatch :: "error + 'a \<Rightarrow> (error \<Rightarrow> error + 'a) \<Rightarrow> error + 'a" where
  "tryCatch body handler = (case body of Inl e \<Rightarrow> handler e | Inr v \<Rightarrow> Inr v)"

definition extractIDCardText :: "('img \<Rightarrow> error + jsstring) \<Rightarrow> 'img \<Rightarrow> error + ExtractedIDData" where
  "extractIDCardText recognize imageData =
     tryCatch
       (case recognize imageData of
          Inl e \<Rightarrow> Inl e
        | Inr text \<Rightarrow> Inr (extractIDData text))
       (\<lambda>e. Inr emptyIDData)"

section \<open>Licence plate extraction\<close>

record ExtractedPlateData =
  plateNumber :: "jsstring option"

definition emptyPlateData :: ExtractedPlateData where
  "emptyPlateData = \<lparr>plateNumber = None\<rparr>"

definition platePatterns :: "re list list" where
  "platePatterns =
     [[WordB, Rep isUpper 2 (Some 3), Rep isHyphenOrSpace 0 (Some 1), Rep isDigit 2 (Some 4), WordB],
      [WordB, Rep isDigit 2 (Some 3), Rep isHyphenOrSpace 0 (Some 1), Rep isUpper 2 (Some 3), WordB],
      [WordB, Rep isUpper 1 (Some 2), Rep isDigit 2 (Some 4), Rep isUpper 0 (Some 1), WordB],
      [WordB, Rep isDigit 1 (Some 3), Rep isUpper 2 (Some 4), WordB],
      [WordB, Rep isUpperDigit 4 (Some 8), WordB]]"

text \<open>\<^verbatim>\<open>line.replace(/[^A-Z0-9-\s]/g, '').toUpperCase().trim()\<close>\<close>

definition cleanPlateLine :: "jsstring \<Rightarrow> jsstring" where
  "cleanPlateLine line =
     trim (toUpperCase (filter (\<lambda>c. isUpperDigit c \<or> isHyphen c \<or> isSpaceCh c) line))"

fun matchesLoop :: "jsstring list \<Rightarrow> jsstring \<times> rat \<Rightarrow> jsstring \<times> rat" where
  "matchesLoop [] best = best"
| "matchesLoop (m # ms) (bestPlateCandidate, bestPlateScore) =
     (let score = calculatePlateScore m
      in if score > bestPlateScore then matchesLoop ms (m, score)
         else matchesLoop ms (bestPlateCandidate, bestPlateScore))"

fun patternsLoop :: "jsstring \<Rightarrow> re list list \<Rightarrow> jsstring \<times> rat \<Rightarrow> jsstring \<times> rat" where
  "patternsLoop cleanLine [] best = best"
| "patternsLoop cleanLine (pattern # rest) best =
     patternsLoop cleanLine rest (matchesLoop (matchG pattern cleanLine) best)"

fun plateLinesLoop :: "jsstring list \<Rightarrow> jsstring \<times> rat \<Rightarrow> jsstring \<times> rat" where
  "plateLinesLoop [] best = best"
| "plateLinesLoop (line # rest) best =
     (let cleanLine = cleanPlateLine line
      in if length cleanLine < 3 then plateLinesLoop rest best
         else plateLinesLoop rest (patternsLoop cleanLine platePatterns best))"

text \<open>\<^verbatim>\<open>lines.join(' ').replace(/[^A-Z0-9]/g, '').toUpperCase()\<close>\<close>

definition plateAllText :: "jsstring list \<Rightarrow> jsstring" where
  "plateAllText ls = toUpperCase (filter isUpperDigit (joinSp ls))"

definition bestPlateCandidate :: "jsstring \<Rightarrow> jsstring" where
  "bestPlateCandidate text =
     (let ls = textLines text;
          cand = fst (plateLinesLoop ls ([], 0))
      in if cand = []
         then
           (let allText = plateAllText ls
            in if 4 \<le> length allText \<and> length allText \<le> 10
                  \<and> calculatePlateScore allText > dbl (5/10)
               then allText else cand)
         else cand)"

text \<open>\<^verbatim>\<open>bestPlateCandidate.replace(/\s+/g, '').replace(/--+/g, '-')\<close>\<close>

definition formatPlate :: "jsstring \<Rightarrow> jsstring" where
  "formatPlate cand = collapseHyphens (filter (\<lambda>c. \<not> isSpaceCh c) cand)"

definition extractPlateData :: "jsstring \<Rightarrow> ExtractedPlateData" where
  "extractPlateData text =
     (let cand = bestPlateCandidate text
      in if cand \<noteq> [] then \<lparr>plateNumber = Some (formatPlate cand)\<rparr> else emptyPlateData)"

definition extractLicensePlate :: "('img \<Rightarrow> error + jsstring) \<Rightarrow> 'img \<Rightarrow> error + ExtractedPlateData" where
  "extractLicensePlate recognize imageData =
     tryCatch
       (case recognize imageData of
          Inl e \<Rightarrow> Inl e
        | Inr text \<Rightarrow> Inr (extractPlateData text))
       (\<lambda>e. Inr emptyPlateData)"

section \<open>Notions used in the statements\<close>

text \<open>
  The character set the specification gives for a meaningful line (ASCII letters, digits,
  the space, hyphen, period), and the one that the cleaning replace of the loop keeps
  (\<^verbatim>\<open>\w\<close>, \<^verbatim>\<open>\s\<close>, period, hyphen).
\<close>

definition plainIdChar :: "ch \<Rightarrow> bool" where
  "plainIdChar c = (isAlpha c \<or> isDigit c \<or> c = 32 \<or> c = 45 \<or> c = 46)"

definition keptIdChar :: "ch \<Rightarrow> bool" where
  "keptIdChar c = (isAlpha c \<or> isDigit c \<or> c = 95 \<or> isSpaceCh c \<or> c = 45 \<or> c = 46)"

text \<open>
  The two selection loops of \<^verbatim>\<open>extractIDCardText\<close> have one shape: a scorer, a
  threshold, and the best candidate so far. \<open>selectLoop\<close> is that shape; the loops are
  shown to be its instances (the ID loop on the lines that are not the name candidate).
\<close>

fun selectLoop :: "(jsstring \<Rightarrow> rat option) \<Rightarrow> rat \<Rightarrow> jsstring list \<Rightarrow> jsstring \<times> rat \<Rightarrow> jsstring \<times> rat" where
  "selectLoop f t [] best = best"
| "selectLoop f t (line # rest) (cand, bestScore) =
     (case f line of
        None \<Rightarrow> selectLoop f t rest (cand, bestScore)
      | Some sc \<Rightarrow>
          if sc > bestScore \<and> sc > t then selectLoop f t rest (line, sc)
          else selectLoop f t rest (cand, bestScore))"

text \<open>
  \<open>firstBest f ls c b\<close>: the line \<open>c\<close> occurs in \<open>ls\<close> with score \<open>b\<close>, every line
  before that occurrence scores strictly less, and no line after it scores more.
\<close>

definition firstBest :: "(jsstring \<Rightarrow> rat option) \<Rightarrow> jsstring list \<Rightarrow> jsstring \<Rightarrow> rat \<Rightarrow> bool" where
  "firstBest f ls c b =
     (\<exists>pre post. ls = pre @ c # post \<and> f c = Some b
        \<and> (\<forall>x \<in> set pre. \<forall>r. f x = Some r \<longrightarrow> r < b)
        \<and> (\<forall>x \<in> set post. \<forall>r. f x = Some r \<longrightarrow> r \<le> b))"

text \<open>
  What a match is sure to contain. \<open>guaranteed q r\<close> is a number of characters of
  class \<open>q\<close> that every match of the item \<open>r\<close> has: the lower repetition bound when
  the item's class lies within \<open>q\<close>. \<open>spans q n z z'\<close>: the position \<open>z'\<close> is reached
  from \<open>z\<close> by passing over a word with at least \<open>n\<close> characters of class \<open>q\<close>.
\<close>

fun guaranteed :: "(ch \<Rightarrow> bool) \<Rightarrow> re \<Rightarrow> nat" where
  "guaranteed q (Rep p lo hi) = (if (\<forall>c. p c \<longrightarrow> q c) then lo else 0)"
| "guaranteed q r = 0"

definition guaranteedSeq :: "(ch \<Rightarrow> bool) \<Rightarrow> re list \<Rightarrow> nat" where
  "guaranteedSeq q rs = sum_list (map (guaranteed q) rs)"

definition spans :: "(ch \<Rightarrow> bool) \<Rightarrow> nat \<Rightarrow> zipper \<Rightarrow> zipper \<Rightarrow> bool" where
  "spans q n z z' = (\<exists>w. snd z = w @ snd z' \<and> fst z' = rev w @ fst z \<and> n \<le> length (filter q w))"

text \<open>\<open>infixOf m s\<close>: the string \<open>m\<close> is a contiguous part of \<open>s\<close>.\<close>

definition infixOf :: "jsstring \<Rightarrow> jsstring \<Rightarrow> bool" where
  "infixOf m s = (\<exists>a b. s = a @ m @ b)"

text \<open>A line that consists solely of upper-case letters, digits and white space.\<close>

definition upperDigitSpaceOnly :: "jsstring \<Rightarrow> bool" where
  "upperDigitSpaceOnly l = list_all (\<lambda>c. isUpper c \<or> isDigit c \<or> isSpaceCh c) l"

text \<open>
  The specification's "alphanumeric run of length at least \<open>n\<close>": at some position of the
  text, \<open>n\<close> or more letters or digits follow one another. \<open>upperDigits\<close> counts the
  characters of \<^verbatim>\<open>[A-Z0-9]\<close> in a text.
\<close>

fun hasAlnumRun :: "nat \<Rightarrow> jsstring \<Rightarrow> bool" where
  "hasAlnumRun n [] = (n = 0)"
| "hasAlnumRun n (c # cs) = (n \<le> length (takeWhile isAlnum (c # cs)) \<or> hasAlnumRun n cs)"

definition upperDigits :: "jsstring \<Rightarrow> nat" where
  "upperDigits s = length (filter isUpperDigit s)"

section \<open>Unfolding sets for evaluation\<close>

lemma floor_rat_numerals:
  "\<lfloor>numeral a / numeral b :: rat\<rfloor> = numeral a div numeral b"
  "\<lfloor>1 / numeral b :: rat\<rfloor> = 1 div numeral b"
  using floor_divide_of_int_eq [of "numeral a" "numeral b", where ?'a = rat]
    floor_divide_of_int_eq [of 1 "numeral b", where ?'a = rat]
  by simp_all

lemma ceiling_rat_numerals:
  "\<lceil>numeral a / numeral b :: rat\<rceil> = - (- numeral a div numeral b)"
  "\<lceil>1 / numeral b :: rat\<rceil> = - (- 1 div numeral b)"
  using floor_divide_of_int_eq [of "- numeral a" "numeral b", where ?'a = rat]
    floor_divide_of_int_eq [of "- 1" "numeral b", where ?'a = rat]
  by (simp_all add: ceiling_def)

text \<open>
  The rounding is evaluated on numerals only, so that a score that is not yet known is
  left alone.
\<close>

lemma bitLength_numerals:
  "bitLength 0 = 0"
  "bitLength 1 = 1"
  "bitLength (Suc 0) = Suc 0"
  "bitLength (numeral a) = Suc (bitLength (numeral a div 2))"
  by (subst bitLength.simps, simp add: bitLength.simps)+

lemmas ilog2_numerals =
  ilog2_def [of "numeral a / numeral b" for a b]
  ilog2_def [of "1 / numeral b" for b]
  ilog2_def [of "numeral a" for a]
  ilog2_def [of 1]

lemma scale2_numerals:
  "scale2 0 x = x"
  "scale2 1 x = x * 2"
  "scale2 (- 1) x = x / 2"
  "scale2 (numeral k) x = x * 2 ^ numeral k"
  "scale2 (- numeral k) x = x / 2 ^ numeral k"
  by (simp_all add: scale2_def)

lemmas roundHalfEven_numerals =
  roundHalfEven_def [of "numeral a / numeral b" for a b]
  roundHalfEven_def [of "1 / numeral b" for b]
  roundHalfEven_def [of "numeral a" for a]
  roundHalfEven_def [of 1]

lemmas roundPos_numerals =
  roundPos_def [of "numeral a / numeral b" for a b]
  roundPos_def [of "1 / numeral b" for b]
  roundPos_def [of "numeral a" for a]
  roundPos_def [of 1]

lemmas rnd_numerals =
  rnd_def [of "numeral a / numeral b" for a b]
  rnd_def [of "1 / numeral b" for b]
  rnd_def [of "numeral a" for a]
  rnd_def [of 1]
  rnd_def [of 0]

lemmas rounding =
  rnd_numerals roundPos_numerals roundHalfEven_numerals ilog2_numerals bitLength_numerals
  scale2_numerals Let_def floor_rat_numerals ceiling_rat_numerals

text \<open>The doubles that the literals of the source denote.\<close>

lemma dbl_values:
  "dbl (1/10) = 3602879701896397 / 36028797018963968"
  "dbl (15/100) = 5404319552844595 / 36028797018963968"
  "dbl (2/10) = 3602879701896397 / 18014398509481984"
  "dbl (3/10) = 5404319552844595 / 18014398509481984"
  "dbl (4/10) = 3602879701896397 / 9007199254740992"
  "dbl (5/10) = 1 / 2"
  "dbl (6/10) = 5404319552844595 / 9007199254740992"
  "dbl (7/10) = 3152519739159347 / 4503599627370496"
  by (simp_all add: dbl_def rounding)

lemmas numbers = dbl_def fadd_def fmul_def jsDiv_def rounding

lemmas char_classes =
  isUpper_def isLower_def isDigit_def isAlpha_def isAlnum_def isUpperDigit_def isWordCh_def
  isSpaceCh_def isHyphen_def isHyphenOrSpace_def

lemmas string_ops = str_def trim_def toUpperCase_def splitWords_def

lemmas regex_ops =
  wordBefore_def wordAfter_def advance_def repEnds_def matchAt_def matchG_def reTest_def
  matchAll.simps

lemmas scorers =
  numbers startsUpper_def calculateNameScore_def calculateIdScore_def calculatePlateScore_def
  plateShapeLD_def plateShapeDL_def plateShapeL1_def

lemmas id_pipeline =
  emptyIDData_def textLines_def cleanIdLine_def headerWords_def dateRe_def onlySpecialRe_def
  skipLine_def meaningfulLines_def bestNameCandidate_def bestIdCandidate_def reportName_def
  reportId_def fallbackNameRe_def fallbackIdRe_def unset_def scoredName_def scoredId_def
  fallbackName_def fallbackId_def extractIDData_def

lemmas eval_id = char_classes string_ops regex_ops scorers id_pipeline Let_def

lemmas plate_pipeline =
  emptyPlateData_def textLines_def platePatterns_def cleanPlateLine_def plateAllText_def
  bestPlateCandidate_def formatPlate_def extractPlateData_def

lemmas eval_plate = char_classes string_ops regex_ops scorers plate_pipeline Let_def

section \<open>Rounding is monotone\<close>

lemma scale2_eq: "scale2 k x = x * 2 powi k"
proof (cases "0 \<le> k")
  case True
  then show ?thesis by (simp add: scale2_def power_int_def)
next
  case False
  then have "2 powi k = 1 / (2::rat) ^ nat (- k)"
    by (simp add: power_int_def power_one_over)
  then show ?thesis using False by (simp add: scale2_def)
qed

lemma bitLength_pos: "0 < n \<Longrightarrow> 0 < bitLength n"
  by (subst bitLength.simps) simp

lemma bitLength_bounds: "0 < n \<Longrightarrow> 2 ^ (bitLength n - 1) \<le> n \<and> n < 2 ^ bitLength n"
proof (induction n rule: bitLength.induct)
  case (1 n)
  have bl: "bitLength n = Suc (bitLength (n div 2))" using 1(2) by (subst bitLength.simps) simp
  show ?case
  proof (cases "n div 2 = 0")
    case True
    then have "n = 1" using 1(2) by (simp add: div_eq_0_iff)
    then show ?thesis using bl True by (simp add: bitLength.simps)
  next
    case False
    then have h: "2 ^ (bitLength (n div 2) - 1) \<le> n div 2 \<and> n div 2 < 2 ^ bitLength (n div 2)"
      using 1 by simp
    obtain b where b: "bitLength (n div 2) = Suc b"
      using bitLength_pos [of "n div 2"] False by (cases "bitLength (n div 2)") auto
    have "2 * 2 ^ b \<le> 2 * (n div 2)" using h b by simp
    then have lo: "2 ^ Suc b \<le> n" by simp
    have "n div 2 < 2 ^ Suc b" using h b by simp
    then have hi: "n < 2 ^ Suc (Suc b)" by simp
    show ?thesis using lo hi bl b by simp
  qed
qed

lemma ilog2_bounds:
  assumes "0 < x"
  shows "2 powi (ilog2 x) \<le> x \<and> x < 2 powi (ilog2 x + 1)"
proof (cases "1 \<le> x")
  case True
  define n where "n = nat \<lfloor>x\<rfloor>"
  have n1: "0 < n" using True by (simp add: n_def)
  have nx: "of_nat n \<le> x" "x < of_nat n + 1"
    using True by (simp_all add: n_def) linarith+
  note b = bitLength_bounds [OF n1]
  have e: "ilog2 x = int (bitLength n) - 1" using True by (simp add: ilog2_def n_def)
  obtain k where k: "bitLength n = Suc k" using bitLength_pos [OF n1] by (cases "bitLength n") auto
  have "(2::rat) ^ k \<le> of_nat n" using b k
    by (metis diff_Suc_1 of_nat_le_iff of_nat_numeral of_nat_power)
  then have lo: "(2::rat) ^ k \<le> x" using nx by linarith
  have "n + 1 \<le> 2 ^ Suc k" using b k by simp
  then have "(of_nat (n + 1) :: rat) \<le> of_nat (2 ^ Suc k)" by (simp only: of_nat_le_iff)
  then have hi: "x < (2::rat) ^ Suc k" using nx by simp
  have e0: "ilog2 x = int k" "ilog2 x + 1 = int (Suc k)" using e k by simp_all
  have "2 powi (ilog2 x) = (2::rat) ^ k" unfolding e0(1) by (rule power_int_of_nat)
  moreover have "2 powi (ilog2 x + 1) = (2::rat) ^ Suc k" unfolding e0(2) by (rule power_int_of_nat)
  ultimately show ?thesis using lo hi by simp
next
  case False
  define y where "y = 1 / x"
  have y1: "1 < y" using False assms by (simp add: y_def)
  define n where "n = nat (\<lceil>y\<rceil> - 1)"
  have c2: "2 \<le> \<lceil>y\<rceil>" using y1 by linarith
  then have n1: "0 < n" by (simp add: n_def)
  have ny: "of_nat n < y" "y \<le> of_nat n + 1"
    using c2 by (simp_all add: n_def) linarith+
  note b = bitLength_bounds [OF n1]
  have e: "ilog2 x = - int (bitLength n)" using False by (simp add: ilog2_def n_def y_def)
  obtain k where k: "bitLength n = Suc k" using bitLength_pos [OF n1] by (cases "bitLength n") auto
  have "(2::rat) ^ k \<le> of_nat n" using b k
    by (metis diff_Suc_1 of_nat_le_iff of_nat_numeral of_nat_power)
  then have lo: "(2::rat) ^ k < y" using ny by linarith
  have "n + 1 \<le> 2 ^ Suc k" using b k by simp
  then have "(of_nat (n + 1) :: rat) \<le> of_nat (2 ^ Suc k)" by (simp only: of_nat_le_iff)
  then have hi: "y \<le> (2::rat) ^ Suc k" using ny by simp
  have x: "x = 1 / y" using assms by (simp add: y_def)
  have a: "1 / (2::rat) ^ Suc k \<le> x"
    unfolding x using hi y1 by (intro divide_left_mono) auto
  have b': "x < 1 / (2::rat) ^ k"
    unfolding x using lo y1 by (intro divide_strict_left_mono mult_pos_pos) auto
  have p1: "2 powi (- int (Suc k)) = 1 / (2::rat) ^ Suc k"
    by (simp only: power_int_minus power_int_of_nat inverse_eq_divide)
  have "- int (Suc k) + 1 = - int k" by simp
  then have p2: "2 powi (- int (Suc k) + 1) = 1 / (2::rat) ^ k"
    by (simp only: power_int_minus power_int_of_nat inverse_eq_divide)
  show ?thesis using a b' unfolding e k p1 p2 by blast
qed

lemma roundHalfEven_cases: "roundHalfEven y = \<lfloor>y\<rfloor> \<or> roundHalfEven y = \<lfloor>y\<rfloor> + 1"
  by (simp add: roundHalfEven_def Let_def)

lemma roundHalfEven_of_int: "roundHalfEven (of_int n) = n"
  by (simp add: roundHalfEven_def Let_def)

lemma roundHalfEven_mono:
  assumes "a \<le> b"
  shows "roundHalfEven a \<le> roundHalfEven b"
proof (cases "\<lfloor>a\<rfloor> < \<lfloor>b\<rfloor>")
  case True
  then show ?thesis using roundHalfEven_cases [of a] roundHalfEven_cases [of b] by linarith
next
  case False
  then have f: "\<lfloor>a\<rfloor> = \<lfloor>b\<rfloor>" using assms floor_mono [of a b] by linarith
  have "a - of_int \<lfloor>b\<rfloor> \<le> b - of_int \<lfloor>b\<rfloor>" using assms by simp
  then show ?thesis unfolding roundHalfEven_def Let_def f by auto
qed

text \<open>A positive number is rounded within its binade, ends included.\<close>

lemma roundPos_bounds:
  assumes "0 < x"
  shows "2 powi (ilog2 x) \<le> roundPos x \<and> roundPos x \<le> 2 powi (ilog2 x + 1)"
proof -
  define e where "e = ilog2 x"
  define m where "m = x * 2 powi (52 - e)"
  have ex: "2 powi e \<le> x" "x < 2 powi (e + 1)" using ilog2_bounds [OF assms] by (simp_all add: e_def)
  have pp: "(0::rat) < 2 powi (52 - e)" by simp
  have "2 powi e * 2 powi (52 - e) \<le> m" unfolding m_def using ex(1) pp by (intro mult_right_mono) auto
  then have lo: "of_int (2 ^ 52) \<le> m" by (simp add: power_int_add [symmetric])
  have "m < 2 powi (e + 1) * 2 powi (52 - e)" unfolding m_def using ex(2) pp by (intro mult_strict_right_mono) auto
  then have hi: "m \<le> of_int (2 ^ 53)" by (simp add: power_int_add [symmetric])
  have rl: "2 ^ 52 \<le> roundHalfEven m"
    using roundHalfEven_mono [OF lo] by (simp only: roundHalfEven_of_int)
  have rh: "roundHalfEven m \<le> 2 ^ 53"
    using roundHalfEven_mono [OF hi] by (simp only: roundHalfEven_of_int)
  have rp: "roundPos x = of_int (roundHalfEven m) * 2 powi (e - 52)"
    by (simp add: roundPos_def Let_def scale2_eq e_def m_def)
  have "2 powi e = (of_int (2 ^ 52) :: rat) * 2 powi (e - 52)"
    using power_int_add [of "2::rat" 52 "e - 52"] by simp
  also have "\<dots> \<le> of_int (roundHalfEven m) * 2 powi (e - 52)"
    using rl by (intro mult_right_mono) (simp_all only: of_int_le_iff, simp)
  finally have a: "2 powi e \<le> roundPos x" unfolding rp .
  have "roundPos x \<le> (of_int (2 ^ 53) :: rat) * 2 powi (e - 52)"
    unfolding rp using rh by (intro mult_right_mono) (simp_all only: of_int_le_iff, simp)
  also have "\<dots> = 2 powi (e + 1)"
    using power_int_add [of "2::rat" 53 "e - 52"] by (simp add: add.commute)
  finally have b: "roundPos x \<le> 2 powi (e + 1)" .
  show ?thesis using a b unfolding e_def by simp
qed

lemma roundPos_mono:
  assumes "0 < x" "x \<le> y"
  shows "roundPos x \<le> roundPos y"
proof -
  have y: "0 < y" using assms by simp
  note bx = ilog2_bounds [OF assms(1)] and by' = ilog2_bounds [OF y]
  have lt: "(2::rat) powi (ilog2 x) < 2 powi (ilog2 y + 1)" using bx by' assms(2) by linarith
  have le: "ilog2 x \<le> ilog2 y"
  proof (rule ccontr)
    assume "\<not> ilog2 x \<le> ilog2 y"
    then have "ilog2 y + 1 \<le> ilog2 x" by simp
    then have "(2::rat) powi (ilog2 y + 1) \<le> 2 powi (ilog2 x)"
      by (intro power_int_increasing) auto
    then show False using lt by simp
  qed
  show ?thesis
  proof (cases "ilog2 x = ilog2 y")
    case True
    have "x * 2 powi (52 - ilog2 y) \<le> y * 2 powi (52 - ilog2 y)"
      using assms(2) by (intro mult_right_mono) auto
    then have "roundHalfEven (x * 2 powi (52 - ilog2 y)) \<le> roundHalfEven (y * 2 powi (52 - ilog2 y))"
      by (rule roundHalfEven_mono)
    then have "(of_int (roundHalfEven (x * 2 powi (52 - ilog2 y))) :: rat) * 2 powi (ilog2 y - 52)
        \<le> of_int (roundHalfEven (y * 2 powi (52 - ilog2 y))) * 2 powi (ilog2 y - 52)"
      by (intro mult_right_mono) (simp_all only: of_int_le_iff, simp)
    then show ?thesis by (simp add: roundPos_def Let_def scale2_eq True)
  next
    case False
    then have "ilog2 x + 1 \<le> ilog2 y" using le by simp
    then have "(2::rat) powi (ilog2 x + 1) \<le> 2 powi (ilog2 y)"
      by (intro power_int_increasing) auto
    then show ?thesis
      using roundPos_bounds [OF assms(1)] roundPos_bounds [OF y] by linarith
  qed
qed

lemma rnd_nonneg: "0 \<le> x \<Longrightarrow> 0 \<le> rnd x"
proof (cases "x = 0")
  case True
  then show ?thesis by (simp add: rnd_def)
next
  case False
  assume "0 \<le> x"
  then have p: "0 < x" using False by simp
  have "(0::rat) < 2 powi (ilog2 x)" by simp
  then have "0 < roundPos x" using roundPos_bounds [OF p] by linarith
  then show ?thesis using p by (simp add: rnd_def)
qed

lemma rnd_mono:
  assumes "0 \<le> x" "x \<le> y"
  shows "rnd x \<le> rnd y"
proof (cases "x = 0")
  case True
  then show ?thesis using rnd_nonneg [of y] assms by (simp add: rnd_def)
next
  case False
  then have "0 < x" "0 < y" using assms by simp_all
  then show ?thesis using roundPos_mono [of x y] assms(2) by (simp add: rnd_def)
qed

text \<open>
  The rounded value is a nearest double: it differs from the exact value by at most half
  a unit in the last place.
\<close>

lemma roundHalfEven_near: "\<bar>of_int (roundHalfEven y) - y\<bar> \<le> 1/2"
  unfolding roundHalfEven_def Let_def by (auto simp: abs_if) linarith+

lemma rnd_near:
  assumes "0 < x"
  shows "\<bar>rnd x - x\<bar> \<le> 2 powi (ilog2 x - 53)"
proof -
  define e where "e = ilog2 x"
  define m where "m = x * 2 powi (52 - e)"
  have rp: "rnd x = of_int (roundHalfEven m) * 2 powi (e - 52)"
    using assms by (simp add: rnd_def roundPos_def Let_def scale2_eq e_def m_def)
  have "m * 2 powi (e - 52) = x * (2 powi (52 - e) * 2 powi (e - 52))" by (simp add: m_def)
  also have "2 powi (52 - e) * 2 powi (e - 52) = (1::rat)"
    using power_int_add [of "2::rat" "52 - e" "e - 52"] by simp
  finally have x: "x = m * 2 powi (e - 52)" by simp
  have "(of_int (roundHalfEven m) - m) * 2 powi (e - 52)
          = of_int (roundHalfEven m) * 2 powi (e - 52) - m * 2 powi (e - 52)"
    by (simp add: algebra_simps)
  then have "rnd x - x = (of_int (roundHalfEven m) - m) * 2 powi (e - 52)"
    using rp x by simp
  then have "\<bar>rnd x - x\<bar> = \<bar>of_int (roundHalfEven m) - m\<bar> * 2 powi (e - 52)"
    by (simp add: abs_mult)
  also have "\<dots> \<le> (1/2) * 2 powi (e - 52)"
    using roundHalfEven_near [of m] by (intro mult_right_mono) auto
  also have "\<dots> = 2 powi (e - 53)"
    using power_int_add [of "2::rat" "-1" "e - 52"] by simp
  finally show ?thesis by (simp add: e_def)
qed

lemma fadd_nonneg: "0 \<le> x \<Longrightarrow> 0 \<le> y \<Longrightarrow> 0 \<le> fadd x y"
  by (simp add: fadd_def rnd_nonneg)

lemma fmul_nonneg: "0 \<le> x \<Longrightarrow> 0 \<le> y \<Longrightarrow> 0 \<le> fmul x y"
  by (simp add: fmul_def rnd_nonneg)

lemma dbl_nonneg: "0 \<le> q \<Longrightarrow> 0 \<le> dbl q"
  by (simp add: dbl_def rnd_nonneg)

lemma fadd_mono: "0 \<le> x \<Longrightarrow> 0 \<le> y \<Longrightarrow> x \<le> x' \<Longrightarrow> y \<le> y' \<Longrightarrow> fadd x y \<le> fadd x' y'"
  unfolding fadd_def by (intro rnd_mono) simp_all

lemma fmul_mono: "0 \<le> x \<Longrightarrow> 0 \<le> y \<Longrightarrow> x \<le> x' \<Longrightarrow> y \<le> y' \<Longrightarrow> fmul x y \<le> fmul x' y'"
  unfolding fmul_def by (intro rnd_mono mult_mono) simp_all

lemma jsDiv_Some:
  assumes "0 < b"
  shows "\<exists>q. jsDiv a b = Some q \<and> 0 \<le> q \<and> (a \<le> b \<longrightarrow> q \<le> 1)"
proof -
  have "rnd (of_nat a / of_nat b) \<le> rnd 1" if "a \<le> b"
    using that assms by (intro rnd_mono) simp_all
  moreover have "rnd 1 = 1" by (simp add: rounding)
  ultimately show ?thesis using assms by (simp add: jsDiv_def rnd_nonneg)
qed

section \<open>The scorers stay within the unit interval\<close>

text \<open>
  A line with a letter is not empty and has a word, so neither quotient of
  \<open>calculateNameScore\<close> divides by zero.
\<close>

lemma alpha_not_space: "isAlpha c \<Longrightarrow> \<not> isSpaceCh c"
  by (auto simp: isAlpha_def isUpper_def isLower_def isSpaceCh_def)

lemma wordsFrom_nonempty:
  "w \<noteq> [] \<or> (\<exists>c \<in> set s. \<not> isSpaceCh c) \<Longrightarrow> wordsFrom w s \<noteq> []"
  by (induction s arbitrary: w) auto

lemma splitWords_nonempty: "list_ex isAlpha line \<Longrightarrow> splitWords line \<noteq> []"
  unfolding splitWords_def
  by (rule wordsFrom_nonempty) (auto simp: list_ex_iff dest: alpha_not_space)

lemma name_score_bounds: "\<exists>r. calculateNameScore line = Some r \<and> 0 \<le> r \<and> r \<le> 1"
proof (cases "list_ex isAlpha line")
  case False
  then show ?thesis by (simp add: calculateNameScore_def)
next
  case True
  then have len: "0 < length line" by (cases line) auto
  have wl: "0 < length (splitWords line)" using splitWords_nonempty [OF True] by simp
  obtain q1 where q1:
    "jsDiv (length (filter (\<lambda>c. isAlpha c \<or> isSpaceCh c) line)) (length line) = Some q1" "0 \<le> q1"
    using jsDiv_Some [OF len] by blast
  obtain q2 where q2:
    "jsDiv (length (filter startsUpper (splitWords line))) (length (splitWords line)) = Some q2" "0 \<le> q2"
    using jsDiv_Some [OF wl] by blast
  define s1 where "s1 = fadd 0 (fmul q1 (dbl (4/10)))"
  define s2 where "s2 = (if 2 \<le> length (splitWords line) \<and> length (splitWords line) \<le> 4
                         then fadd s1 (dbl (3/10)) else s1)"
  define s3 where "s3 = fadd s2 (fmul q2 (dbl (2/10)))"
  define s4 where "s4 = (if 5 \<le> length line \<and> length line \<le> 40 then fadd s3 (dbl (1/10)) else s3)"
  have n1: "0 \<le> s1" unfolding s1_def using q1(2) by (intro fadd_nonneg fmul_nonneg dbl_nonneg) simp_all
  have n2: "0 \<le> s2" unfolding s2_def using n1 by (auto intro!: fadd_nonneg dbl_nonneg)
  have n3: "0 \<le> s3" unfolding s3_def using n2 q2(2) by (intro fadd_nonneg fmul_nonneg dbl_nonneg) simp_all
  have n4: "0 \<le> s4" unfolding s4_def using n3 by (auto intro!: fadd_nonneg dbl_nonneg)
  have "calculateNameScore line = Some (min s4 1)"
    unfolding calculateNameScore_def Let_def s4_def s3_def s2_def s1_def
    by (simp only: True not_True_eq_False if_False q1(1) q2(1) option.case)
  then show ?thesis using n4 by simp
qed

lemma id_score_bounds: "\<exists>r. calculateIdScore line = Some r \<and> 0 \<le> r \<and> r \<le> 1"
proof (cases "\<not> list_ex isDigit line \<and> \<not> list_ex isAlpha line")
  case True
  then show ?thesis by (simp add: calculateIdScore_def)
next
  case False
  then have len: "0 < length line" by (cases line) auto
  obtain q where q: "jsDiv (length (filter isAlnum line)) (length line) = Some q" "0 \<le> q"
    using jsDiv_Some [OF len] by blast
  define s1 where "s1 = (if list_ex isDigit line then fadd 0 (dbl (4/10)) else 0)"
  define s2 where "s2 = (if list_ex isAlpha line \<and> list_ex isDigit line then fadd s1 (dbl (2/10)) else s1)"
  define s3 where "s3 = fadd s2 (fmul q (dbl (3/10)))"
  define s4 where "s4 = (if 6 \<le> length (filter isAlnum line) \<and> length (filter isAlnum line) \<le> 15
                         then fadd s3 (dbl (1/10)) else s3)"
  have n1: "0 \<le> s1" unfolding s1_def by (auto intro!: fadd_nonneg dbl_nonneg)
  have n2: "0 \<le> s2" unfolding s2_def using n1 by (auto intro!: fadd_nonneg dbl_nonneg)
  have n3: "0 \<le> s3" unfolding s3_def using n2 q(2) by (intro fadd_nonneg fmul_nonneg dbl_nonneg) simp_all
  have n4: "0 \<le> s4" unfolding s4_def using n3 by (auto intro!: fadd_nonneg dbl_nonneg)
  have "calculateIdScore line = Some (min s4 1)"
    unfolding calculateIdScore_def Let_def s4_def s3_def s2_def s1_def
    by (simp only: False if_False q(1) option.case)
  then show ?thesis using n4 by simp
qed

lemma plate_score_bounds: "0 \<le> calculatePlateScore t \<and> calculatePlateScore t \<le> 1"
proof -
  define c where "c = filter isUpperDigit t"
  define s1 where "s1 = (if list_ex isDigit c \<and> list_ex isUpper c then fadd 0 (dbl (5/10)) else 0)"
  define s2 where "s2 = (if list_ex isDigit c \<and> \<not> list_ex isUpper c \<and> 3 \<le> length c
                         then fadd s1 (dbl (3/10)) else s1)"
  define s3 where "s3 = (if 4 \<le> length c \<and> length c \<le> 8 then fadd s2 (dbl (3/10))
                         else if 3 \<le> length c \<and> length c \<le> 10 then fadd s2 (dbl (1/10)) else s2)"
  define s4 where "s4 = (if reTest plateShapeLD c then fadd s3 (dbl (2/10)) else s3)"
  define s5 where "s5 = (if reTest plateShapeDL c then fadd s4 (dbl (2/10)) else s4)"
  define s6 where "s6 = (if reTest plateShapeL1 c then fadd s5 (dbl (15/100)) else s5)"
  have n1: "0 \<le> s1" unfolding s1_def by (auto intro!: fadd_nonneg dbl_nonneg)
  have n2: "0 \<le> s2" unfolding s2_def using n1 by (auto intro!: fadd_nonneg dbl_nonneg)
  have n3: "0 \<le> s3" unfolding s3_def using n2 by (auto intro!: fadd_nonneg dbl_nonneg)
  have n4: "0 \<le> s4" unfolding s4_def using n3 by (auto intro!: fadd_nonneg dbl_nonneg)
  have n5: "0 \<le> s5" unfolding s5_def using n4 by (auto intro!: fadd_nonneg dbl_nonneg)
  have n6: "0 \<le> s6" unfolding s6_def using n5 by (auto intro!: fadd_nonneg dbl_nonneg)
  have "calculatePlateScore t = (if \<not> list_ex isDigit c \<and> \<not> list_ex isUpper c then 0 else min s6 1)"
    unfolding calculatePlateScore_def Let_def s6_def s5_def s4_def s3_def s2_def s1_def c_def ..
  then show ?thesis using n6 by simp
qed

text \<open>
  Claim C2. For every string, \<open>calculateNameScore\<close>, \<open>calculateIdScore\<close> and
  \<open>calculatePlateScore\<close> return a number (never \<^verbatim>\<open>NaN\<close>) that lies in the closed
  interval from 0 to 1; this covers the empty string and strings without letters or
  digits.
\<close>

theorem score_bounds:
  "(\<exists>r. calculateNameScore line = Some r \<and> 0 \<le> r \<and> r \<le> 1)
   \<and> (\<exists>r. calculateIdScore line = Some r \<and> 0 \<le> r \<and> r \<le> 1)
   \<and> 0 \<le> calculatePlateScore line \<and> calculatePlateScore line \<le> 1"
  using name_score_bounds id_score_bounds plate_score_bounds by blast

section \<open>Empty input and failures of the recognition\<close>

lemma textLines_empty: "textLines [] = []"
  by (simp add: textLines_def trim_def)

lemma matchAll_end: "matchAt rs ([], []) = None \<Longrightarrow> matchAll rs ([], []) = []"
  by (subst matchAll.simps) simp

lemma extractIDData_empty: "extractIDData [] = emptyIDData"
proof -
  have ml: "meaningfulLines [] = []" by (simp add: meaningfulLines_def textLines_empty)
  have n: "matchG fallbackNameRe [] = []"
    unfolding matchG_def
    by (rule matchAll_end) (simp add: matchAt_def fallbackNameRe_def wordBefore_def wordAfter_def)
  have i: "matchG fallbackIdRe [] = []"
    unfolding matchG_def
    by (rule matchAll_end) (simp add: matchAt_def fallbackIdRe_def wordBefore_def wordAfter_def)
  show ?thesis
    by (simp add: extractIDData_def ml scoredName_def scoredId_def bestNameCandidate_def
        bestIdCandidate_def unset_def emptyIDData_def fallbackName_def fallbackId_def n i)
qed

lemma extractPlateData_empty: "extractPlateData [] = emptyPlateData"
  by (simp add: extractPlateData_def bestPlateCandidate_def textLines_empty plateAllText_def
      toUpperCase_def)

text \<open>
  Claim C5. When the recognised text is empty, \<open>extractIDCardText\<close> and
  \<open>extractLicensePlate\<close> resolve to the empty result object; when the recognition throws,
  they resolve to the empty result object as well; and whatever the recognition does,
  both promises are resolved, never rejected.
\<close>

theorem empty_input_and_no_raise:
  "extractIDCardText (\<lambda>i. Inr []) imageData = Inr emptyIDData
   \<and> extractLicensePlate (\<lambda>i. Inr []) imageData = Inr emptyPlateData
   \<and> extractIDCardText (\<lambda>i. Inl e) imageData = Inr emptyIDData
   \<and> extractLicensePlate (\<lambda>i. Inl e) imageData = Inr emptyPlateData
   \<and> (\<exists>d. extractIDCardText recognize imageData = Inr d)
   \<and> (\<exists>p. extractLicensePlate recognize imageData = Inr p)"
  by (cases "recognize imageData")
     (simp_all add: extractIDCardText_def extractLicensePlate_def tryCatch_def
        extractIDData_empty extractPlateData_empty)

section \<open>Fields that are never filled\<close>

text \<open>
  Claim C9. The record that \<open>extractIDCardText\<close> resolves to never has its
  \<open>address\<close> or \<open>city\<close> field set: only \<open>name\<close> and \<open>idNumber\<close> are ever written.
\<close>

theorem id_result_no_address_city:
  "\<exists>d. extractIDCardText recognize imageData = Inr d \<and> address d = None \<and> city d = None"
  by (cases "recognize imageData")
     (simp_all add: extractIDCardText_def tryCatch_def extractIDData_def emptyIDData_def Let_def)

section \<open>Characters of the meaningful lines\<close>

text \<open>
  Claim C3, as stated, fails: \<^verbatim>\<open>\w\<close> contains the underscore, so the line
  \<^verbatim>\<open>AB_12\<close> passes the cleaning unchanged and is a meaningful line.
\<close>

theorem meaningful_charset_counterexample:
  "meaningfulLines (str ''AB_12'') = [str ''AB_12'']
   \<and> \<not> list_all (list_all plainIdChar) (meaningfulLines (str ''AB_12''))"
  by (simp add: char_classes string_ops regex_ops id_pipeline plainIdChar_def Let_def)

lemma cleanIdLine_chars: "list_all keptIdChar (cleanIdLine line)"
  by (auto simp: cleanIdLine_def list_all_iff keptIdChar_def isWordCh_def isAlnum_def)

lemma meaningfulLoop_chars: "list_all (list_all keptIdChar) (meaningfulLoop ls)"
  by (induction ls) (simp_all add: Let_def cleanIdLine_chars)

text \<open>
  Claim C3, amended. Every character of every meaningful line is an ASCII letter, a
  digit, an underscore, a white-space character (any of \<^verbatim>\<open>\s\<close>, not only the space),
  a hyphen or a period.
\<close>

theorem meaningful_charset: "list_all (list_all keptIdChar) (meaningfulLines text)"
  by (simp add: meaningfulLines_def meaningfulLoop_chars)

section \<open>The plate that is returned\<close>

lemma collapseHyphens_head: "\<exists>r. collapseHyphens (a # cs) = a # r"
proof (induction cs arbitrary: a)
  case Nil
  show ?case by simp
next
  case (Cons b cs)
  obtain r where "collapseHyphens (b # cs) = b # r" using Cons by blast
  then show ?case by (auto simp: isHyphen_def)
qed

lemma collapseHyphens_no_double: "\<not> includesStr (collapseHyphens s) [45, 45]"
proof (induction s rule: collapseHyphens.induct)
  case 1
  show ?case by simp
next
  case (2 c)
  show ?case by simp
next
  case (3 a b cs)
  obtain r where r: "collapseHyphens (b # cs) = b # r" using collapseHyphens_head by blast
  show ?case using 3 r by (auto simp: isHyphen_def)
qed

lemma collapseHyphens_set: "set (collapseHyphens s) \<subseteq> set s"
  by (induction s rule: collapseHyphens.induct) auto

lemma collapseHyphens_others:
  "filter (\<lambda>c. \<not> isHyphen c) (collapseHyphens s) = filter (\<lambda>c. \<not> isHyphen c) s"
  by (induction s rule: collapseHyphens.induct) auto

lemma formatPlate_no_space: "\<not> list_ex isSpaceCh (formatPlate c)"
  using collapseHyphens_set [of "filter (\<lambda>c. \<not> isSpaceCh c) c"]
  by (auto simp: formatPlate_def list_ex_iff)

lemma collapseHyphens_adjacent: "remdups_adj (collapseHyphens s) = remdups_adj s"
proof (induction s rule: collapseHyphens.induct)
  case 1
  show ?case by simp
next
  case (2 c)
  show ?case by simp
next
  case (3 a b cs)
  obtain r where r: "collapseHyphens (b # cs) = b # r" using collapseHyphens_head by blast
  show ?case using 3 r by (auto simp: isHyphen_def)
qed

text \<open>
  Claim C7. The text \<^verbatim>\<open>ABC 1234\<close> yields the plate number \<^verbatim>\<open>ABC1234\<close>, and \<^verbatim>\<open>AB-123\<close>
  keeps its hyphen. In general the plate number is the winning candidate after
  formatting, whether it comes from a line or from the whole-text fallback. A formatted
  candidate has no white space and no two hyphens in a row; up to repetitions of adjacent
  equal characters it is the candidate without its white space, so every run of hyphens
  leaves one hyphen; and it keeps every character that is neither white space nor a
  hyphen, repetitions included.
\<close>

theorem plate_positive_and_normalised:
  "extractLicensePlate (\<lambda>i. Inr (str ''ABC 1234'')) imageData
     = Inr \<lparr>plateNumber = Some (str ''ABC1234'')\<rparr>
   \<and> extractLicensePlate (\<lambda>i. Inr (str ''AB-123'')) imageData
     = Inr \<lparr>plateNumber = Some (str ''AB-123'')\<rparr>
   \<and> extractLicensePlate (\<lambda>i. Inr text) imageData
     = Inr \<lparr>plateNumber = (if bestPlateCandidate text = [] then None
                            else Some (formatPlate (bestPlateCandidate text)))\<rparr>
   \<and> formatPlate (str ''AB - -12'') = str ''AB-12''
   \<and> \<not> list_ex isSpaceCh (formatPlate c)
   \<and> \<not> includesStr (formatPlate c) [45, 45]
   \<and> remdups_adj (formatPlate c) = remdups_adj (filter (\<lambda>x. \<not> isSpaceCh x) c)
   \<and> filter (\<lambda>x. \<not> isHyphen x) (formatPlate c)
     = filter (\<lambda>x. \<not> isHyphen x) (filter (\<lambda>x. \<not> isSpaceCh x) c)"
proof -
  have a: "extractLicensePlate (\<lambda>i. Inr (str ''ABC 1234'')) imageData
     = Inr \<lparr>plateNumber = Some (str ''ABC1234'')\<rparr>"
    by (simp add: extractLicensePlate_def tryCatch_def eval_plate)
  have a': "extractLicensePlate (\<lambda>i. Inr (str ''AB-123'')) imageData
     = Inr \<lparr>plateNumber = Some (str ''AB-123'')\<rparr>"
    by (simp add: extractLicensePlate_def tryCatch_def eval_plate)
  have b: "extractLicensePlate (\<lambda>i. Inr text) imageData
     = Inr \<lparr>plateNumber = (if bestPlateCandidate text = [] then None
                            else Some (formatPlate (bestPlateCandidate text)))\<rparr>"
    by (simp add: extractLicensePlate_def tryCatch_def extractPlateData_def emptyPlateData_def
        Let_def)
  have e: "formatPlate (str ''AB - -12'') = str ''AB-12''"
    by (simp add: formatPlate_def char_classes string_ops)
  have c: "filter (\<lambda>x. \<not> isHyphen x) (formatPlate c)
     = filter (\<lambda>x. \<not> isHyphen x) (filter (\<lambda>x. \<not> isSpaceCh x) c)"
    by (simp add: formatPlate_def collapseHyphens_others)
  have d: "remdups_adj (formatPlate c) = remdups_adj (filter (\<lambda>x. \<not> isSpaceCh x) c)"
    by (simp add: formatPlate_def collapseHyphens_adjacent)
  have f: "\<not> includesStr (formatPlate c) [45, 45]"
    by (simp add: formatPlate_def collapseHyphens_no_double)
  show ?thesis
    using a a' b c d e f formatPlate_no_space [of c] by blast
qed

section \<open>The selection loops\<close>

lemma nameLoop_select: "nameLoop ls st = selectLoop calculateNameScore (dbl (7/10)) ls st"
  by (induction ls arbitrary: st) (auto split: option.splits prod.splits)

lemma idLoop_select:
  "idLoop nm ls st = selectLoop calculateIdScore (dbl (6/10)) (filter (\<lambda>l. l \<noteq> nm) ls) st"
  by (induction ls arbitrary: st) (auto split: option.splits prod.splits)

lemma firstBest_here:
  "f c = Some b \<Longrightarrow> \<forall>x \<in> set rest. \<forall>r. f x = Some r \<longrightarrow> r \<le> b \<Longrightarrow> firstBest f (c # rest) c b"
  unfolding firstBest_def by (rule exI [of _ "[]"]) auto

lemma firstBest_later:
  "firstBest f rest c b \<Longrightarrow> \<forall>r. f line = Some r \<longrightarrow> r < b \<Longrightarrow> firstBest f (line # rest) c b"
  unfolding firstBest_def
proof -
  assume "\<exists>pre post. rest = pre @ c # post \<and> f c = Some b
        \<and> (\<forall>x \<in> set pre. \<forall>r. f x = Some r \<longrightarrow> r < b)
        \<and> (\<forall>x \<in> set post. \<forall>r. f x = Some r \<longrightarrow> r \<le> b)"
    and l: "\<forall>r. f line = Some r \<longrightarrow> r < b"
  then obtain pre post where p: "rest = pre @ c # post" "f c = Some b"
      "\<forall>x \<in> set pre. \<forall>r. f x = Some r \<longrightarrow> r < b"
      "\<forall>x \<in> set post. \<forall>r. f x = Some r \<longrightarrow> r \<le> b"
    by blast
  have "line # rest = (line # pre) @ c # post \<and> f c = Some b
        \<and> (\<forall>x \<in> set (line # pre). \<forall>r. f x = Some r \<longrightarrow> r < b)
        \<and> (\<forall>x \<in> set post. \<forall>r. f x = Some r \<longrightarrow> r \<le> b)"
    using p l by simp
  then show "\<exists>pre post. line # rest = pre @ c # post \<and> f c = Some b
        \<and> (\<forall>x \<in> set pre. \<forall>r. f x = Some r \<longrightarrow> r < b)
        \<and> (\<forall>x \<in> set post. \<forall>r. f x = Some r \<longrightarrow> r \<le> b)"
    by blast
qed

lemma selectLoop_char:
  "selectLoop f t ls (c0, b0) = (c, b) \<Longrightarrow>
     (c = c0 \<and> b = b0 \<and> (\<forall>x \<in> set ls. \<forall>r. f x = Some r \<longrightarrow> \<not> (r > b0 \<and> r > t)))
     \<or> (b > b0 \<and> b > t \<and> firstBest f ls c b)"
proof (induction ls arbitrary: c0 b0)
  case Nil
  then show ?case by simp
next
  case (Cons line rest)
  show ?case
  proof (cases "\<exists>sc. f line = Some sc \<and> sc > b0 \<and> sc > t")
    case True
    then obtain sc where sc: "f line = Some sc" "sc > b0" "sc > t" by blast
    then have run: "selectLoop f t rest (line, sc) = (c, b)" using Cons.prems by simp
    from Cons.IH [OF run] show ?thesis
    proof
      assume h: "c = line \<and> b = sc
        \<and> (\<forall>x \<in> set rest. \<forall>r. f x = Some r \<longrightarrow> \<not> (r > sc \<and> r > t))"
      then have "\<forall>x \<in> set rest. \<forall>r. f x = Some r \<longrightarrow> r \<le> b"
        using sc by fastforce
      then have "firstBest f (line # rest) c b" using h sc firstBest_here by blast
      then show ?thesis using h sc by blast
    next
      assume h: "b > sc \<and> b > t \<and> firstBest f rest c b"
      then have "firstBest f (line # rest) c b" using sc by (intro firstBest_later) auto
      then show ?thesis using h sc by auto
    qed
  next
    case False
    then have run: "selectLoop f t rest (c0, b0) = (c, b)"
      using Cons.prems by (auto split: option.splits if_splits)
    from Cons.IH [OF run] show ?thesis
    proof
      assume "c = c0 \<and> b = b0 \<and> (\<forall>x \<in> set rest. \<forall>r. f x = Some r \<longrightarrow> \<not> (r > b0 \<and> r > t))"
      then show ?thesis using False by auto
    next
      assume h: "b > b0 \<and> b > t \<and> firstBest f rest c b"
      have "\<forall>r. f line = Some r \<longrightarrow> r < b" using False h by force
      then have "firstBest f (line # rest) c b" using h by (intro firstBest_later) auto
      then show ?thesis using h by blast
    qed
  qed
qed

lemma name_positive: "calculateNameScore l = Some r \<Longrightarrow> 0 < r \<Longrightarrow> l \<noteq> []"
  by (auto simp: calculateNameScore_def)

lemma id_positive: "calculateIdScore l = Some r \<Longrightarrow> 0 < r \<Longrightarrow> l \<noteq> []"
  by (auto simp: calculateIdScore_def)

lemma bestName_cases:
  "(bestNameCandidate ls = [] \<and> (\<forall>x \<in> set ls. \<forall>r. calculateNameScore x = Some r \<longrightarrow> r \<le> dbl (7/10)))
   \<or> (bestNameCandidate ls \<noteq> [] \<and> (\<exists>b. b > dbl (7/10) \<and> firstBest calculateNameScore ls (bestNameCandidate ls) b))"
proof -
  obtain c b where cb: "selectLoop calculateNameScore (dbl (7/10)) ls ([], 0) = (c, b)"
    by (cases "selectLoop calculateNameScore (dbl (7/10)) ls ([], 0)") blast
  then have c: "bestNameCandidate ls = c" by (simp add: bestNameCandidate_def nameLoop_select)
  from selectLoop_char [OF cb] show ?thesis
  proof
    assume "c = [] \<and> b = 0 \<and> (\<forall>x \<in> set ls. \<forall>r. calculateNameScore x = Some r \<longrightarrow> \<not> (r > 0 \<and> r > dbl (7/10)))"
    moreover have "(0::rat) \<le> dbl (7/10)" by (rule dbl_nonneg) simp
    ultimately show ?thesis using c by fastforce
  next
    assume h: "b > 0 \<and> b > dbl (7/10) \<and> firstBest calculateNameScore ls c b"
    then have "calculateNameScore c = Some b" by (auto simp: firstBest_def)
    then have "c \<noteq> []" using h name_positive by blast
    then show ?thesis using c h by blast
  qed
qed

lemma bestId_cases:
  "(bestIdCandidate ls = []
      \<and> (\<forall>x \<in> set ls. x \<noteq> bestNameCandidate ls \<longrightarrow> (\<forall>r. calculateIdScore x = Some r \<longrightarrow> r \<le> dbl (6/10))))
   \<or> (bestIdCandidate ls \<noteq> []
      \<and> (\<exists>b. b > dbl (6/10) \<and> firstBest calculateIdScore (filter (\<lambda>l. l \<noteq> bestNameCandidate ls) ls)
                 (bestIdCandidate ls) b))"
proof -
  let ?el = "filter (\<lambda>l. l \<noteq> bestNameCandidate ls) ls"
  obtain c b where cb: "selectLoop calculateIdScore (dbl (6/10)) ?el ([], 0) = (c, b)"
    by (cases "selectLoop calculateIdScore (dbl (6/10)) ?el ([], 0)") blast
  then have c: "bestIdCandidate ls = c" by (simp add: bestIdCandidate_def idLoop_select)
  from selectLoop_char [OF cb] show ?thesis
  proof
    assume "c = [] \<and> b = 0 \<and> (\<forall>x \<in> set ?el. \<forall>r. calculateIdScore x = Some r \<longrightarrow> \<not> (r > 0 \<and> r > dbl (6/10)))"
    moreover have "(0::rat) \<le> dbl (6/10)" by (rule dbl_nonneg) simp
    ultimately show ?thesis using c by fastforce
  next
    assume h: "b > 0 \<and> b > dbl (6/10) \<and> firstBest calculateIdScore ?el c b"
    then have "calculateIdScore c = Some b" by (auto simp: firstBest_def)
    then have "c \<noteq> []" using h id_positive by blast
    then show ?thesis using c h by blast
  qed
qed

section \<open>What the result reports\<close>

lemma dropWhile_keeps: "x \<in> set s \<Longrightarrow> \<not> P x \<Longrightarrow> x \<in> set (dropWhile P s)"
  by (induction s) auto

lemma trim_keeps: "x \<in> set s \<Longrightarrow> \<not> isSpaceCh x \<Longrightarrow> x \<in> set (trim s)"
  unfolding trim_def by (simp add: dropWhile_keeps)

lemma collapseSpaces_keeps: "x \<in> set s \<Longrightarrow> \<not> isSpaceCh x \<Longrightarrow> x \<in> set (collapseSpaces f s)"
  by (induction s arbitrary: f) auto

lemma name_candidate_letter:
  "calculateNameScore c = Some b \<Longrightarrow> 0 < b \<Longrightarrow> list_ex isAlpha c"
  by (cases "list_ex isAlpha c") (simp_all add: calculateNameScore_def)

lemma reportName_nonempty:
  assumes "calculateNameScore c = Some b" "0 < b"
  shows "reportName c \<noteq> []"
proof -
  obtain x where x: "x \<in> set c" "isAlpha x"
    using name_candidate_letter [OF assms] by (auto simp: list_ex_iff)
  then have "x \<in> set (reportName c)"
    unfolding reportName_def by (intro trim_keeps collapseSpaces_keeps alpha_not_space) auto
  then show ?thesis by auto
qed

lemma id_candidate_digit:
  assumes "calculateIdScore c = Some b" "dbl (6/10) < b"
  shows "list_ex isDigit c"
proof (rule ccontr)
  assume nd: "\<not> list_ex isDigit c"
  have t0: "(0::rat) \<le> dbl (6/10)" by (rule dbl_nonneg) simp
  show False
  proof (cases "list_ex isAlpha c")
    case False
    then show False using nd assms t0 by (simp add: calculateIdScore_def)
  next
    case True
    then have len: "0 < length c" by (cases c) auto
    obtain q where q: "jsDiv (length (filter isAlnum c)) (length c) = Some q" "0 \<le> q" "q \<le> 1"
      using jsDiv_Some [OF len, of "length (filter isAlnum c)"] by auto
    define s3 where "s3 = fadd 0 (fmul q (dbl (3/10)))"
    have d3: "(0::rat) \<le> dbl (3/10)" by (rule dbl_nonneg) simp
    have d1: "(0::rat) \<le> dbl (1/10)" by (rule dbl_nonneg) simp
    have m3: "s3 \<le> fadd 0 (fmul 1 (dbl (3/10)))"
      unfolding s3_def using q d3 by (intro fadd_mono fmul_mono fmul_nonneg) simp_all
    have n3: "0 \<le> s3" unfolding s3_def using q d3 by (intro fadd_nonneg fmul_nonneg) simp_all
    have m4: "fadd s3 (dbl (1/10)) \<le> fadd (fadd 0 (fmul 1 (dbl (3/10)))) (dbl (1/10))"
      using m3 n3 d1 by (intro fadd_mono) simp_all
    have bnd: "fadd 0 (fmul 1 (dbl (3/10))) \<le> dbl (6/10)"
      "fadd (fadd 0 (fmul 1 (dbl (3/10)))) (dbl (1/10)) \<le> dbl (6/10)"
      by (simp_all add: numbers)
    have "calculateIdScore c =
      Some (min (if 6 \<le> length (filter isAlnum c) \<and> length (filter isAlnum c) \<le> 15
                 then fadd s3 (dbl (1/10)) else s3) 1)"
      unfolding calculateIdScore_def Let_def s3_def
      by (simp only: nd True q(1) option.case simp_thms if_False if_True)
    then have "b \<le> dbl (6/10)" using assms(1) m3 m4 bnd by (auto split: if_splits)
    then show False using assms(2) by simp
  qed
qed

lemma digit_upperdigit: "isDigit x \<Longrightarrow> isUpperDigit x \<and> \<not> isSpaceCh x"
  by (auto simp: isDigit_def isUpperDigit_def isSpaceCh_def)

lemma reportId_filter: "reportId c = filter isUpperDigit c"
  unfolding reportId_def
  by (induction c) (auto simp: isUpperDigit_def isUpper_def isDigit_def isSpaceCh_def)

lemma reportId_nonempty:
  assumes "calculateIdScore c = Some b" "dbl (6/10) < b"
  shows "reportId c \<noteq> []"
proof -
  obtain x where x: "x \<in> set c" "isDigit x"
    using id_candidate_digit [OF assms] by (auto simp: list_ex_iff)
  then have "x \<in> set (reportId c)" by (simp add: reportId_filter digit_upperdigit)
  then show ?thesis by auto
qed

lemma extract_name:
  "name (extractIDData text) = fallbackName (joinSp (meaningfulLines text)) (scoredName (meaningfulLines text))"
  by (simp add: extractIDData_def Let_def fallbackName_def emptyIDData_def split: list.splits)

lemma extract_idNumber:
  "idNumber (extractIDData text) = fallbackId (joinSp (meaningfulLines text)) (scoredId (meaningfulLines text))"
  by (simp add: extractIDData_def Let_def fallbackId_def emptyIDData_def split: list.splits)

lemma scored_name_kept:
  assumes "bestNameCandidate (meaningfulLines text) \<noteq> []"
  shows "name (extractIDData text) = Some (reportName (bestNameCandidate (meaningfulLines text)))"
proof -
  obtain b where b: "b > dbl (7/10)"
      "firstBest calculateNameScore (meaningfulLines text) (bestNameCandidate (meaningfulLines text)) b"
    using bestName_cases [of "meaningfulLines text"] assms by blast
  then have "calculateNameScore (bestNameCandidate (meaningfulLines text)) = Some b"
    by (auto simp: firstBest_def)
  moreover have "0 < b" using b(1) dbl_nonneg [of "7/10"] by simp
  ultimately have "reportName (bestNameCandidate (meaningfulLines text)) \<noteq> []"
    by (rule reportName_nonempty)
  then show ?thesis using assms by (simp add: extract_name scoredName_def fallbackName_def unset_def)
qed

lemma scored_id_kept:
  assumes "bestIdCandidate (meaningfulLines text) \<noteq> []"
  shows "idNumber (extractIDData text) = Some (reportId (bestIdCandidate (meaningfulLines text)))"
proof -
  obtain b where b: "b > dbl (6/10)"
      "firstBest calculateIdScore
         (filter (\<lambda>l. l \<noteq> bestNameCandidate (meaningfulLines text)) (meaningfulLines text))
         (bestIdCandidate (meaningfulLines text)) b"
    using bestId_cases [of "meaningfulLines text"] assms by blast
  then have "calculateIdScore (bestIdCandidate (meaningfulLines text)) = Some b"
    by (auto simp: firstBest_def)
  then have "reportId (bestIdCandidate (meaningfulLines text)) \<noteq> []"
    using b(1) by (intro reportId_nonempty [of _ b]) auto
  then show ?thesis using assms by (simp add: extract_idNumber scoredId_def fallbackId_def unset_def)
qed

end
